theory Spec2Isabelle
  imports Main "HOL-Library.Sublist"
begin

section \<open>Data model\<close>

text \<open>
  Modelled from the spec: the bindings of \<^verbatim>\<open>PkgSpec\<close> (\<^verbatim>\<open>bindings/PkgSpec.ts\<close>) are
  missing. The generator \<^verbatim>\<open>generateSiSpecs\<close> reads \<^verbatim>\<open>spec.name\<close> and serialises the
  whole value; the other fields follow the data model of the specification: a schema
  identifier, a property tree of six kinds (and the reference marker that replaces an
  extracted property), sockets with a direction, function bindings of five kinds, an
  optional parent, and the warnings attached to a spec.
\<close>

datatype PropSpec =
    PString
  | PNumber
  | PBoolean
  | PObject "(string \<times> PropSpec) list"
  | PArray PropSpec
  | PMap PropSpec
  | PRef string

datatype Direction = Input | Output

record SocketSpec =
  socket_name :: string
  socket_type :: PropSpec
  direction :: Direction

datatype FuncKind = Action | Leaf | Management | Asset | Intrinsic

record FuncSpec =
  func_name :: string
  func_kind :: FuncKind
  userAuthored :: bool

record PkgSpec =
  name :: string
  schemaId :: string
  props :: "(string \<times> PropSpec) list"
  sockets :: "SocketSpec list"
  funcs :: "FuncSpec list"
  parent :: "string option"
  warnings :: "string list"

text \<open>
  A raw schema. The generator reads \<^verbatim>\<open>cfSchema.typeName\<close> only; the rest of the
  record is left open.
\<close>

record 'r CfSchema =
  typeName :: string
  rawProperties :: 'r

section \<open>The imported collaborators\<close>

text \<open>
  Everything \<^verbatim>\<open>generateSiSpecs\<close> imports is a parameter of the model, under the name the
  source imports it by. A function that can throw returns a sum whose left injection is
  the rendering of the thrown value (what \<^verbatim>\<open>${e}\<close> prints). The nine transformation
  steps are total functions on the collection; the reconciliation step can fail.
  \<^verbatim>\<open>loadCfDatabase\<close> and \<^verbatim>\<open>getExistingSpecs\<close> stand for the values the two loaders
  resolve to; the database is an object, kept as the list of its entries in
  \<^verbatim>\<open>Object.values\<close> order. \<^verbatim>\<open>emptyDirectory\<close> (of \<^verbatim>\<open>util.ts\<close>) is a parameter as well:
  a function on the files, of which nothing is assumed here; what a property needs of it
  is a hypothesis of that property. \<^verbatim>\<open>writeTextFile_error\<close> tells whether writing a
  content to a path fails, and with which error; within one run it is the same for every
  state of the files.
\<close>

record 'r Env =
  loadCfDatabase :: "(string \<times> 'r CfSchema) list"
  getExistingSpecs :: "string \<rightharpoonup> PkgSpec"
  getServiceByName :: "string \<Rightarrow> string + 'r CfSchema"
  pkgSpecFromCf :: "'r CfSchema \<Rightarrow> string + PkgSpec"
  generateOutputSocketsFromResourceProps :: "PkgSpec list \<Rightarrow> PkgSpec list"
  addDefaultPropsAndSockets :: "PkgSpec list \<Rightarrow> PkgSpec list"
  generateDefaultActionFuncs :: "PkgSpec list \<Rightarrow> PkgSpec list"
  generateDefaultLeafFuncs :: "PkgSpec list \<Rightarrow> PkgSpec list"
  generateDefaultManagementFuncs :: "PkgSpec list \<Rightarrow> PkgSpec list"
  generateSubAssets :: "PkgSpec list \<Rightarrow> PkgSpec list"
  generateIntrinsicFuncs :: "PkgSpec list \<Rightarrow> PkgSpec list"
  createInputSocketsBasedOnOutputSockets :: "PkgSpec list \<Rightarrow> PkgSpec list"
  generateAssetFuncs :: "PkgSpec list \<Rightarrow> PkgSpec list"
  updateSchemaIdsForExistingSpecs ::
    "(string \<rightharpoonup> PkgSpec) \<Rightarrow> PkgSpec list \<Rightarrow> string + PkgSpec list"
  emptyDirectory :: "string \<Rightarrow> (string \<rightharpoonup> string) \<Rightarrow> (string \<rightharpoonup> string)"
  JSON_stringify :: "PkgSpec \<Rightarrow> string"
  writeTextFile_error :: "string \<Rightarrow> string \<Rightarrow> string option"

section \<open>The world the generator acts on\<close>

text \<open>Files by path, the lines printed by \<^verbatim>\<open>console.log\<close>, and those of \<^verbatim>\<open>logger.debug\<close>.\<close>

record World =
  files :: "string \<rightharpoonup> string"
  console :: "string list"
  debugLog :: "string list"

definition console_log :: "string \<Rightarrow> World \<Rightarrow> World" where
  "console_log line w = w\<lparr>console := console w @ [line]\<rparr>"

definition logger_debug :: "string \<Rightarrow> World \<Rightarrow> World" where
  "logger_debug line w = w\<lparr>debugLog := debugLog w @ [line]\<rparr>"

text \<open>
  \<^verbatim>\<open>Deno.writeTextFile\<close>: a write that succeeds stores the content under the path as it is
  given; a write that throws leaves the files as they were.
\<close>

definition Deno_writeTextFile :: "'r Env \<Rightarrow> string \<Rightarrow> string \<Rightarrow> World \<Rightarrow> string + World" where
  "Deno_writeTextFile env path data w =
     (case writeTextFile_error env path data of
        Some e \<Rightarrow> Inl e
      | None \<Rightarrow> Inr (w\<lparr>files := (files w)(path \<mapsto> data)\<rparr>))"

subsection \<open>Paths\<close>

text \<open>
  A path is read as the file system reads it: split at \<^verbatim>\<open>/\<close>, empty segments and
  \<^verbatim>\<open>.\<close> dropped, \<^verbatim>\<open>..\<close> leaving the directory entered last. A path is in a directory
  when both are absolute or both relative and the resolved directory is a proper prefix
  of the resolved path.
\<close>

fun splitPath :: "string \<Rightarrow> string list" where
  "splitPath [] = [[]]"
| "splitPath (c # cs) =
     (if c = CHR ''/'' then [] # splitPath cs
      else (case splitPath cs of
              seg # segs \<Rightarrow> (c # seg) # segs
            | [] \<Rightarrow> [[c]]))"

fun resolveSegments :: "string list \<Rightarrow> string list \<Rightarrow> string list" where
  "resolveSegments stack [] = rev stack"
| "resolveSegments stack (seg # segs) =
     (if seg = [] \<or> seg = ''.'' then resolveSegments stack segs
      else if seg = ''..'' then
        (case stack of
           [] \<Rightarrow> resolveSegments [seg] segs
         | upper # lower \<Rightarrow>
             if upper = ''..'' then resolveSegments (seg # stack) segs
             else resolveSegments lower segs)
      else resolveSegments (seg # stack) segs)"

definition isAbsolute :: "string \<Rightarrow> bool" where
  "isAbsolute path = (take 1 path = ''/'')"

definition resolvePath :: "string \<Rightarrow> string list" where
  "resolvePath path = resolveSegments [] (splitPath path)"

definition in_directory :: "string \<Rightarrow> string \<Rightarrow> bool" where
  "in_directory dir path =
     (isAbsolute dir = isAbsolute path \<and> strict_prefix (resolvePath dir) (resolvePath path))"

text \<open>
  The files left when every entry of a directory is removed and nothing else is touched.
  Whether \<^verbatim>\<open>emptyDirectory\<close> does this is not visible in the sources: the properties that
  need it assume it of the run at hand.
\<close>

definition removeEntries :: "string \<Rightarrow> (string \<rightharpoonup> string) \<Rightarrow> (string \<rightharpoonup> string)" where
  "removeEntries dir fs = (\<lambda>path. if in_directory dir path then None else fs path)"

section \<open>Rendering numbers in template strings\<close>

definition digit_char :: "nat \<Rightarrow> char" where
  "digit_char d = ''0123456789'' ! d"

fun string_of_nat :: "nat \<Rightarrow> string" where
  "string_of_nat n =
     (if n < 10 then [digit_char n] else string_of_nat (n div 10) @ [digit_char (n mod 10)])"

declare string_of_nat.simps [simp del]

section \<open>The generator\<close>

definition SI_SPEC_DIR :: string where
  "SI_SPEC_DIR = ''si-specs''"

definition generateSiSpecForService :: "'r Env \<Rightarrow> string \<Rightarrow> string + PkgSpec" where
  "generateSiSpecForService env serviceName =
     (case getServiceByName env serviceName of
        Inl e \<Rightarrow> Inl e
      | Inr cf \<Rightarrow> pkgSpecFromCf env cf)"

text \<open>
  The first loop of \<^verbatim>\<open>generateSiSpecs\<close> (\<^verbatim>\<open>for (const cfSchema of cfSchemas)\<close>): one
  draft pushed per schema, a console line for each schema whose translation throws.
\<close>

fun buildSpecs :: "'r Env \<Rightarrow> 'r CfSchema list \<Rightarrow> PkgSpec list \<times> World \<Rightarrow> PkgSpec list \<times> World" where
  "buildSpecs env [] (specs, w) = (specs, w)"
| "buildSpecs env (cfSchema # rest) (specs, w) =
     (case pkgSpecFromCf env cfSchema of
        Inr pkg \<Rightarrow> buildSpecs env rest (specs @ [pkg], w)
      | Inl e \<Rightarrow>
          buildSpecs env rest
            (specs, console_log (''Error Building: '' @ typeName cfSchema @ '': '' @ e) w))"

text \<open>The steps under \<^verbatim>\<open>EXECUTE PIPELINE STEPS\<close>, each reassigning \<^verbatim>\<open>specs\<close>.\<close>

definition executePipelineSteps ::
  "'r Env \<Rightarrow> (string \<rightharpoonup> PkgSpec) \<Rightarrow> PkgSpec list \<Rightarrow> string + PkgSpec list" where
  "executePipelineSteps env existing_specs specs0 =
     (let specs = generateOutputSocketsFromResourceProps env specs0;
          specs = addDefaultPropsAndSockets env specs;
          specs = generateDefaultActionFuncs env specs;
          specs = generateDefaultLeafFuncs env specs;
          specs = generateDefaultManagementFuncs env specs;
          specs = generateSubAssets env specs;
          specs = generateIntrinsicFuncs env specs;
          specs = createInputSocketsBasedOnOutputSockets env specs;
          specs = generateAssetFuncs env specs
      in updateSchemaIdsForExistingSpecs env existing_specs specs)"

text \<open>
  The loop under \<^verbatim>\<open>WRITE OUTS SPECS\<close> (\<^verbatim>\<open>for (const spec of specs)\<close>), threading
  \<^verbatim>\<open>imported\<close> and the world; a write that throws is logged and the loop continues.
\<close>

fun writeSpecs :: "'r Env \<Rightarrow> PkgSpec list \<Rightarrow> nat \<times> World \<Rightarrow> nat \<times> World" where
  "writeSpecs env [] (imported, w) = (imported, w)"
| "writeSpecs env (spec # rest) (imported, w) =
     (let specJson = JSON_stringify env spec;
          nm = name spec;
          w1 = logger_debug (''Writing '' @ nm @ ''.json'') w
      in case Deno_writeTextFile env (SI_SPEC_DIR @ ''/'' @ nm @ ''.json'') specJson w1 of
           Inl e \<Rightarrow>
             writeSpecs env rest
               (imported, console_log (''Error writing to file: '' @ nm @ '': '' @ e) w1)
         | Inr w2 \<Rightarrow> writeSpecs env rest (imported + 1, w2))"

text \<open>
  The whole run. A failure of the reconciliation step is not caught: the run rejects
  with it, before \<^verbatim>\<open>emptyDirectory\<close> is called. \<^verbatim>\<open>emptyDirectory\<close> is called once, after
  the steps and before the first write.
\<close>

definition generateSiSpecs :: "'r Env \<Rightarrow> World \<Rightarrow> (string + unit) \<times> World" where
  "generateSiSpecs env w =
     (let db = loadCfDatabase env;
          existing_specs = getExistingSpecs env;
          cfSchemas = map snd db;
          (specs, w1) = buildSpecs env cfSchemas ([], w)
      in case executePipelineSteps env existing_specs specs of
           Inl e \<Rightarrow> (Inl e, w1)
         | Inr specs' \<Rightarrow>
             (let w2 = w1\<lparr>files := emptyDirectory env SI_SPEC_DIR (files w1)\<rparr>;
                  (imported, w3) = writeSpecs env specs' (0, w2)
              in (Inr (),
                  console_log
                    (''built '' @ string_of_nat imported @ '' out of '' @
                     string_of_nat (length cfSchemas)) w3)))"

section \<open>What a run computes, stated on lists\<close>

text \<open>
  The two loops are characterised below by list functions: the drafts and the console
  lines of the first loop, the paths, the written specs and the console lines of the
  second.
\<close>

definition drafts :: "'r Env \<Rightarrow> 'r CfSchema list \<Rightarrow> PkgSpec list" where
  "drafts env cfSchemas =
     concat (map (\<lambda>cf. case pkgSpecFromCf env cf of Inr pkg \<Rightarrow> [pkg] | Inl e \<Rightarrow> []) cfSchemas)"

definition buildErrors :: "'r Env \<Rightarrow> 'r CfSchema list \<Rightarrow> string list" where
  "buildErrors env cfSchemas =
     concat (map (\<lambda>cf. case pkgSpecFromCf env cf of
                          Inr pkg \<Rightarrow> []
                        | Inl e \<Rightarrow> [''Error Building: '' @ typeName cf @ '': '' @ e]) cfSchemas)"

definition translationFails :: "'r Env \<Rightarrow> 'r CfSchema \<Rightarrow> bool" where
  "translationFails env cf = isl (pkgSpecFromCf env cf)"

text \<open>The same run on a database from which the schemas that fail to translate are removed.\<close>

definition withoutFailing :: "'r Env \<Rightarrow> 'r Env" where
  "withoutFailing env =
     env\<lparr>loadCfDatabase := filter (\<lambda>(k, cf). \<not> translationFails env cf) (loadCfDatabase env)\<rparr>"

definition specPath :: "PkgSpec \<Rightarrow> string" where
  "specPath spec = SI_SPEC_DIR @ ''/'' @ name spec @ ''.json''"

definition writeOk :: "'r Env \<Rightarrow> PkgSpec \<Rightarrow> bool" where
  "writeOk env spec = (writeTextFile_error env (specPath spec) (JSON_stringify env spec) = None)"

definition written :: "'r Env \<Rightarrow> PkgSpec list \<Rightarrow> PkgSpec list" where
  "written env specs = filter (writeOk env) specs"

definition writeErrors :: "'r Env \<Rightarrow> PkgSpec list \<Rightarrow> string list" where
  "writeErrors env specs =
     concat (map (\<lambda>spec. case writeTextFile_error env (specPath spec) (JSON_stringify env spec) of
                            None \<Rightarrow> []
                          | Some e \<Rightarrow> [''Error writing to file: '' @ name spec @ '': '' @ e]) specs)"

definition store :: "'r Env \<Rightarrow> PkgSpec list \<Rightarrow> (string \<rightharpoonup> string) \<Rightarrow> (string \<rightharpoonup> string)" where
  "store env specs fs = fold (\<lambda>spec f. f(specPath spec \<mapsto> JSON_stringify env spec)) specs fs"

definition artifactOf :: "'r Env \<Rightarrow> PkgSpec \<Rightarrow> string \<times> string" where
  "artifactOf env spec = (specPath spec, JSON_stringify env spec)"

definition summaryLine :: "nat \<Rightarrow> nat \<Rightarrow> string" where
  "summaryLine imported attempted =
     ''built '' @ string_of_nat imported @ '' out of '' @ string_of_nat attempted"

section \<open>The order of the stages, as specified\<close>

text \<open>
  The specification names nine stages, run in this order over the whole collection, and
  the identity reconciler after them. \<open>stageStep\<close> gives each stage the imported function
  that implements it.
\<close>

datatype Stage =
    OutputSocketDeriver
  | DefaultAugmenter
  | ActionFunctionGenerator
  | LeafFunctionGenerator
  | ManagementFunctionGenerator
  | SubAssetExtractor
  | IntrinsicFunctionAttacher
  | InputSocketResolver
  | AssetFunctionSynthesizer

fun stageStep :: "'r Env \<Rightarrow> Stage \<Rightarrow> PkgSpec list \<Rightarrow> PkgSpec list" where
  "stageStep env OutputSocketDeriver = generateOutputSocketsFromResourceProps env"
| "stageStep env DefaultAugmenter = addDefaultPropsAndSockets env"
| "stageStep env ActionFunctionGenerator = generateDefaultActionFuncs env"
| "stageStep env LeafFunctionGenerator = generateDefaultLeafFuncs env"
| "stageStep env ManagementFunctionGenerator = generateDefaultManagementFuncs env"
| "stageStep env SubAssetExtractor = generateSubAssets env"
| "stageStep env IntrinsicFunctionAttacher = generateIntrinsicFuncs env"
| "stageStep env InputSocketResolver = createInputSocketsBasedOnOutputSockets env"
| "stageStep env AssetFunctionSynthesizer = generateAssetFuncs env"

definition specifiedOrder :: "Stage list" where
  "specifiedOrder =
     [OutputSocketDeriver, DefaultAugmenter, ActionFunctionGenerator, LeafFunctionGenerator,
      ManagementFunctionGenerator, SubAssetExtractor, IntrinsicFunctionAttacher,
      InputSocketResolver, AssetFunctionSynthesizer]"

definition runStages :: "'r Env \<Rightarrow> Stage list \<Rightarrow> PkgSpec list \<Rightarrow> PkgSpec list" where
  "runStages env stages specs = fold (stageStep env) stages specs"

definition orderedPipeline ::
  "'r Env \<Rightarrow> (string \<rightharpoonup> PkgSpec) \<Rightarrow> PkgSpec list \<Rightarrow> string + PkgSpec list" where
  "orderedPipeline env existing_specs specs =
     updateSchemaIdsForExistingSpecs env existing_specs (runStages env specifiedOrder specs)"

section \<open>A small run\<close>

text \<open>
  Three schemas: \<open>A\<close> translates and is written, \<open>B\<close> fails to translate, \<open>C\<close> translates
  and its file cannot be written. The directory holds a file of an earlier run.
\<close>

definition demoDraft :: "string \<Rightarrow> PkgSpec" where
  "demoDraft n =
     \<lparr>name = n, schemaId = ''new-'' @ n, props = [], sockets = [], funcs = [],
      parent = None, warnings = []\<rparr>"

definition demoDb :: "(string \<times> nat CfSchema) list" where
  "demoDb =
     [(''A'', \<lparr>typeName = ''A'', rawProperties = 1\<rparr>),
      (''B'', \<lparr>typeName = ''B'', rawProperties = 0\<rparr>),
      (''C'', \<lparr>typeName = ''C'', rawProperties = 1\<rparr>)]"

definition demoEnv :: "nat Env" where
  "demoEnv =
     \<lparr>loadCfDatabase = demoDb,
      getExistingSpecs = Map.empty,
      getServiceByName =
        (\<lambda>n. case map_of demoDb n of None \<Rightarrow> Inl ''unknown service'' | Some cf \<Rightarrow> Inr cf),
      pkgSpecFromCf =
        (\<lambda>cf. if rawProperties cf = 0 then Inl ''SchemaTranslationError''
              else Inr (demoDraft (typeName cf))),
      generateOutputSocketsFromResourceProps = (\<lambda>specs. specs),
      addDefaultPropsAndSockets = (\<lambda>specs. specs),
      generateDefaultActionFuncs = (\<lambda>specs. specs),
      generateDefaultLeafFuncs = (\<lambda>specs. specs),
      generateDefaultManagementFuncs = (\<lambda>specs. specs),
      generateSubAssets = (\<lambda>specs. specs),
      generateIntrinsicFuncs = (\<lambda>specs. specs),
      createInputSocketsBasedOnOutputSockets = (\<lambda>specs. specs),
      generateAssetFuncs = (\<lambda>specs. specs),
      updateSchemaIdsForExistingSpecs = (\<lambda>existing specs. Inr specs),
      emptyDirectory = removeEntries,
      JSON_stringify = (\<lambda>spec. ''{name: '' @ name spec @ ''}''),
      writeTextFile_error =
        (\<lambda>path data. if path = ''si-specs/C.json'' then Some ''PermissionDenied'' else None)\<rparr>"

definition demoWorld :: World where
  "demoWorld =
     \<lparr>files = [''si-specs/Old.json'' \<mapsto> ''stale'', ''README.md'' \<mapsto> ''keep''],
      console = [], debugLog = []\<rparr>"






text \<open>
  An environment whose steps leave their mark on every spec they are given, and whose
  sub-asset step adds a spec.
\<close>

definition mark :: "string \<Rightarrow> PkgSpec list \<Rightarrow> PkgSpec list" where
  "mark tag specs = map (\<lambda>spec. spec\<lparr>warnings := warnings spec @ [tag]\<rparr>) specs"

definition tracingEnv :: "nat Env" where
  "tracingEnv =
     demoEnv\<lparr>generateOutputSocketsFromResourceProps := mark ''output sockets'',
             addDefaultPropsAndSockets := mark ''defaults'',
             generateDefaultActionFuncs := mark ''action'',
             generateDefaultLeafFuncs := mark ''leaf'',
             generateDefaultManagementFuncs := mark ''management'',
             generateSubAssets := (\<lambda>specs. mark ''sub-assets'' specs @ [demoDraft ''Sub'']),
             generateIntrinsicFuncs := mark ''intrinsic'',
             createInputSocketsBasedOnOutputSockets := mark ''input sockets'',
             generateAssetFuncs := mark ''asset'',
             updateSchemaIdsForExistingSpecs := (\<lambda>existing specs. Inr (mark ''identity'' specs))\<rparr>"

section \<open>Stages described by the specification\<close>

text \<open>
  The generator imports the pipeline steps; for the stages below, the definitions follow
  the words of the specification. Entries are kept in lists, in the order they were
  added.
\<close>

subsection \<open>Adding entries keyed by name\<close>

text \<open>
  Modelled from the spec: the helper by which a stage adds entries without duplicates
  keyed by name (the steps \<^verbatim>\<open>addDefaultPropsAndSockets\<close> and \<^verbatim>\<open>generateIntrinsicFuncs\<close>
  are missing). An entry is appended unless one with the same key is there.
\<close>

definition addKeyed :: "('a \<Rightarrow> 'k) \<Rightarrow> 'a \<Rightarrow> 'a list \<Rightarrow> 'a list" where
  "addKeyed key x xs = (if key x \<in> key ` set xs then xs else xs @ [x])"

text \<open>Modelled from the spec: the same helper, for a fixed set of entries in turn.\<close>

definition addAllKeyed :: "('a \<Rightarrow> 'k) \<Rightarrow> 'a list \<Rightarrow> 'a list \<Rightarrow> 'a list" where
  "addAllKeyed key new xs = fold (addKeyed key) new xs"

text \<open>Modelled from the spec: socket names are unique within a spec per direction.\<close>

definition socketKey :: "SocketSpec \<Rightarrow> string \<times> Direction" where
  "socketKey s = (socket_name s, direction s)"

subsection \<open>Default augmenter and intrinsic attacher\<close>

text \<open>
  Modelled from the spec: the Default Augmenter (\<^verbatim>\<open>addDefaultPropsAndSockets\<close>, missing)
  adds a fixed set of standard properties and a fixed set of standard sockets to every
  spec, with no duplicate entries keyed by name. The two fixed sets are parameters.
\<close>

definition defaultAugmenter ::
  "(string \<times> PropSpec) list \<Rightarrow> SocketSpec list \<Rightarrow> PkgSpec list \<Rightarrow> PkgSpec list" where
  "defaultAugmenter standardProps standardSockets specs =
     map (\<lambda>spec. spec\<lparr>props := addAllKeyed fst standardProps (props spec),
                      sockets := addAllKeyed socketKey standardSockets (sockets spec)\<rparr>) specs"

text \<open>
  Modelled from the spec: the Intrinsic Function Attacher (\<^verbatim>\<open>generateIntrinsicFuncs\<close>,
  missing) attaches a fixed set of intrinsic functions to every spec of the collection,
  whatever functions are attached already.
\<close>

definition intrinsicAttacher :: "FuncSpec list \<Rightarrow> PkgSpec list \<Rightarrow> PkgSpec list" where
  "intrinsicAttacher intrinsics specs =
     map (\<lambda>spec. spec\<lparr>funcs := addAllKeyed func_name intrinsics (funcs spec)\<rparr>) specs"

subsection \<open>Sub-asset extractor\<close>

text \<open>
  Modelled from the spec: the promotion threshold of the Sub-Asset Extractor
  (\<^verbatim>\<open>generateSubAssets\<close>, missing): an object shape qualifies when its field count
  exceeds the configured threshold.
\<close>

definition qualifiesForPromotion :: "nat \<Rightarrow> (string \<times> PropSpec) list \<Rightarrow> bool" where
  "qualifiesForPromotion threshold children = (threshold < length children)"

text \<open>
  Modelled from the spec: the replacement of an inline property by a reference marker
  (\<^verbatim>\<open>generateSubAssets\<close>, missing). A qualifying nested object, as a property or as the
  element of an array, becomes a reference to the spec named by the structural hash of
  its shape; an object that does not qualify is searched further.
\<close>

primrec rewriteProp :: "nat \<Rightarrow> ((string \<times> PropSpec) list \<Rightarrow> string) \<Rightarrow> PropSpec \<Rightarrow> PropSpec" where
  "rewriteProp threshold shapeHash PString = PString"
| "rewriteProp threshold shapeHash PNumber = PNumber"
| "rewriteProp threshold shapeHash PBoolean = PBoolean"
| "rewriteProp threshold shapeHash (PObject children) =
     (if qualifiesForPromotion threshold children then PRef (shapeHash children)
      else PObject (map (map_prod id (rewriteProp threshold shapeHash)) children))"
| "rewriteProp threshold shapeHash (PArray element) =
     PArray (case element of
               PObject children \<Rightarrow> rewriteProp threshold shapeHash element
             | _ \<Rightarrow> element)"
| "rewriteProp threshold shapeHash (PMap v) = PMap v"
| "rewriteProp threshold shapeHash (PRef n) = PRef n"

text \<open>
  Modelled from the spec: the candidates for promotion in a property
  (\<^verbatim>\<open>generateSubAssets\<close>, missing): every qualifying object at a property or array-element
  position, at any depth, those inside another candidate included.
\<close>

primrec candidateShapes :: "nat \<Rightarrow> PropSpec \<Rightarrow> (string \<times> PropSpec) list list" where
  "candidateShapes threshold PString = []"
| "candidateShapes threshold PNumber = []"
| "candidateShapes threshold PBoolean = []"
| "candidateShapes threshold (PObject children) =
     (if qualifiesForPromotion threshold children then [children] else []) @
     concat (map snd (map (map_prod id (candidateShapes threshold)) children))"
| "candidateShapes threshold (PArray element) =
     (case element of
        PObject children \<Rightarrow> candidateShapes threshold element
      | _ \<Rightarrow> [])"
| "candidateShapes threshold (PMap v) = []"
| "candidateShapes threshold (PRef n) = []"

text \<open>Modelled from the spec: the replacement, over the named properties of a spec.\<close>

definition rewriteProps ::
  "nat \<Rightarrow> ((string \<times> PropSpec) list \<Rightarrow> string) \<Rightarrow> (string \<times> PropSpec) list
     \<Rightarrow> (string \<times> PropSpec) list" where
  "rewriteProps threshold shapeHash children =
     map (map_prod id (rewriteProp threshold shapeHash)) children"

text \<open>Modelled from the spec: the candidates, over the named properties of a spec.\<close>

definition candidatesIn :: "nat \<Rightarrow> (string \<times> PropSpec) list \<Rightarrow> (string \<times> PropSpec) list list" where
  "candidatesIn threshold children = concat (map (\<lambda>(n, p). candidateShapes threshold p) children)"

text \<open>
  Modelled from the spec: the new spec made for a candidate (\<^verbatim>\<open>generateSubAssets\<close>,
  missing): it is named by the hash of the shape, carries the nested structure, and
  remembers the parent it was found in. Its identifier is assigned later.
\<close>

definition subAssetFor ::
  "nat \<Rightarrow> ((string \<times> PropSpec) list \<Rightarrow> string) \<Rightarrow> string \<Rightarrow> (string \<times> PropSpec) list \<Rightarrow> PkgSpec" where
  "subAssetFor threshold shapeHash parentName children =
     \<lparr>name = shapeHash children, schemaId = [],
      props = rewriteProps threshold shapeHash children,
      sockets = [], funcs = [], parent = Some parentName, warnings = []\<rparr>"

text \<open>Modelled from the spec: every candidate of the collection with the spec it occurs in.\<close>

definition foundShapes :: "nat \<Rightarrow> PkgSpec list \<Rightarrow> (string \<times> (string \<times> PropSpec) list) list" where
  "foundShapes threshold specs =
     concat (map (\<lambda>spec. map (\<lambda>children. (name spec, children))
                            (candidatesIn threshold (props spec))) specs)"

text \<open>
  Modelled from the spec: the sub-assets of a collection (\<^verbatim>\<open>generateSubAssets\<close>, missing),
  candidates being deduplicated by the structural hash of their shape.
\<close>

definition extractedSubAssets ::
  "nat \<Rightarrow> ((string \<times> PropSpec) list \<Rightarrow> string) \<Rightarrow> PkgSpec list \<Rightarrow> PkgSpec list" where
  "extractedSubAssets threshold shapeHash specs =
     addAllKeyed name
       (map (\<lambda>(parentName, children). subAssetFor threshold shapeHash parentName children)
          (foundShapes threshold specs)) []"

text \<open>
  Modelled from the spec: the Sub-Asset Extractor (\<^verbatim>\<open>generateSubAssets\<close>, missing): every
  spec with its candidates replaced by references, then the sub-assets, which enter the
  collection as specs of their own.
\<close>

definition subAssetExtractor ::
  "nat \<Rightarrow> ((string \<times> PropSpec) list \<Rightarrow> string) \<Rightarrow> PkgSpec list \<Rightarrow> PkgSpec list" where
  "subAssetExtractor threshold shapeHash specs =
     map (\<lambda>spec. spec\<lparr>props := rewriteProps threshold shapeHash (props spec)\<rparr>) specs @
     extractedSubAssets threshold shapeHash specs"

text \<open>
  Positions in a property: a path of steps into the fields of an object, by index, or into
  the element of an array. \<open>propAt\<close> reads the property at a path; \<open>outermostAt\<close> gives
  the shape of a candidate that stands at a path with no candidate above it, that is, an
  inline occurrence of the shape in the property as it is before the extraction.
\<close>

datatype Step = Field nat | Element

fun propAt :: "Step list \<Rightarrow> PropSpec \<Rightarrow> PropSpec option" where
  "propAt [] p = Some p"
| "propAt (Field i # path) p =
     (case p of
        PObject children \<Rightarrow> if i < length children then propAt path (snd (children ! i)) else None
      | _ \<Rightarrow> None)"
| "propAt (Element # path) p =
     (case p of
        PArray element \<Rightarrow> propAt path element
      | _ \<Rightarrow> None)"

fun outermostAt :: "nat \<Rightarrow> Step list \<Rightarrow> PropSpec \<Rightarrow> (string \<times> PropSpec) list option" where
  "outermostAt threshold [] p =
     (case p of
        PObject children \<Rightarrow> if qualifiesForPromotion threshold children then Some children else None
      | _ \<Rightarrow> None)"
| "outermostAt threshold (Field i # path) p =
     (case p of
        PObject children \<Rightarrow>
          if qualifiesForPromotion threshold children \<or> length children \<le> i then None
          else outermostAt threshold path (snd (children ! i))
      | _ \<Rightarrow> None)"
| "outermostAt threshold (Element # path) p =
     (case p of
        PArray element \<Rightarrow>
          (case element of
             PObject children \<Rightarrow> outermostAt threshold path element
           | _ \<Rightarrow> None)
      | _ \<Rightarrow> None)"

subsection \<open>Input-socket resolver\<close>

text \<open>
  Modelled from the spec: the global index of the Input-Socket Resolver
  (\<^verbatim>\<open>createInputSocketsBasedOnOutputSockets\<close>, missing): every output socket of the
  collection, with the name of the spec that owns it.
\<close>

definition outputIndex :: "PkgSpec list \<Rightarrow> (string \<times> SocketSpec) list" where
  "outputIndex specs =
     concat (map (\<lambda>spec. map (\<lambda>out. (name spec, out))
                            (filter (\<lambda>out. direction out = Output) (sockets spec))) specs)"

text \<open>
  Modelled from the spec: the output sockets that qualify for a need of a spec: produced
  elsewhere, with exactly the normalized name and the type of the need. The normalization
  of names is a parameter.
\<close>

definition qualifying ::
  "(string \<Rightarrow> string) \<Rightarrow> (string \<times> SocketSpec) list \<Rightarrow> PkgSpec \<Rightarrow> string \<times> PropSpec
     \<Rightarrow> (string \<times> SocketSpec) list" where
  "qualifying normalizeName index spec need =
     filter (\<lambda>(owner, out). owner \<noteq> name spec
                            \<and> normalizeName (socket_name out) = normalizeName (fst need)
                            \<and> socket_type out = snd need) index"

datatype Resolution = Wired SocketSpec | Unresolved | Ambiguous string

text \<open>Modelled from the spec: the input socket created for a need that is matched.\<close>

definition inputSocketFor :: "string \<times> PropSpec \<Rightarrow> SocketSpec" where
  "inputSocketFor need = \<lparr>socket_name = fst need, socket_type = snd need, direction = Input\<rparr>"

text \<open>Modelled from the spec: the warning recorded for a need with several matches.\<close>

definition ambiguityWarning :: "string \<times> PropSpec \<Rightarrow> string" where
  "ambiguityWarning need = ''ambiguous output socket match for '' @ fst need"

text \<open>
  Modelled from the spec: the matching policy: no qualifying output socket leaves the
  need alone, one wires it, more than one is reported and not guessed.
\<close>

fun resolve :: "string \<times> PropSpec \<Rightarrow> (string \<times> SocketSpec) list \<Rightarrow> Resolution" where
  "resolve need [] = Unresolved"
| "resolve need [c] = Wired (inputSocketFor need)"
| "resolve need (c # d # cs) = Ambiguous (ambiguityWarning need)"

text \<open>Modelled from the spec: the sockets created by a list of resolutions.\<close>

definition wiredSockets :: "Resolution list \<Rightarrow> SocketSpec list" where
  "wiredSockets rs = concat (map (\<lambda>r. case r of Wired s \<Rightarrow> [s] | _ \<Rightarrow> []) rs)"

text \<open>Modelled from the spec: the warnings recorded by a list of resolutions.\<close>

definition recordedWarnings :: "Resolution list \<Rightarrow> string list" where
  "recordedWarnings rs = concat (map (\<lambda>r. case r of Ambiguous m \<Rightarrow> [m] | _ \<Rightarrow> []) rs)"

text \<open>
  Modelled from the spec: the resolver on one spec; the warnings are attached to the
  affected spec. What a spec needs is a parameter.
\<close>

definition resolveSpec ::
  "(string \<Rightarrow> string) \<Rightarrow> (PkgSpec \<Rightarrow> (string \<times> PropSpec) list) \<Rightarrow> (string \<times> SocketSpec) list
     \<Rightarrow> PkgSpec \<Rightarrow> PkgSpec" where
  "resolveSpec normalizeName needs index spec =
     (let rs = map (\<lambda>need. resolve need (qualifying normalizeName index spec need)) (needs spec)
      in spec\<lparr>sockets := sockets spec @ wiredSockets rs,
              warnings := warnings spec @ recordedWarnings rs\<rparr>)"

text \<open>
  Modelled from the spec: the Input-Socket Resolver
  (\<^verbatim>\<open>createInputSocketsBasedOnOutputSockets\<close>, missing): the index is built once from the
  whole collection, then every spec is resolved against it.
\<close>

definition inputSocketResolver ::
  "(string \<Rightarrow> string) \<Rightarrow> (PkgSpec \<Rightarrow> (string \<times> PropSpec) list) \<Rightarrow> PkgSpec list \<Rightarrow> PkgSpec list" where
  "inputSocketResolver normalizeName needs specs =
     (let index = outputIndex specs in map (resolveSpec normalizeName needs index) specs)"

subsection \<open>Identity reconciler\<close>

text \<open>
  Modelled from the spec: the matching of the Identity Reconciler
  (\<^verbatim>\<open>updateSchemaIdsForExistingSpecs\<close>, missing): the exact match by name first, the fuzzy
  match only when there is none. The fuzzy match is a parameter.
\<close>

definition matchPrevious ::
  "((string \<rightharpoonup> PkgSpec) \<Rightarrow> PkgSpec \<Rightarrow> PkgSpec option) \<Rightarrow> (string \<rightharpoonup> PkgSpec) \<Rightarrow> PkgSpec
     \<Rightarrow> PkgSpec option" where
  "matchPrevious fuzzyMatch existing spec =
     (case existing (name spec) of
        Some prev \<Rightarrow> Some prev
      | None \<Rightarrow> fuzzyMatch existing spec)"

text \<open>
  Modelled from the spec: a user-authored function of the previous spec is preserved over
  the freshly generated one of the same kind and name.
\<close>

definition preserveFuncs :: "PkgSpec \<Rightarrow> FuncSpec list \<Rightarrow> FuncSpec list" where
  "preserveFuncs prev fresh =
     map (\<lambda>f. case find (\<lambda>g. userAuthored g \<and> func_kind g = func_kind f
                              \<and> func_name g = func_name f) (funcs prev) of
                 Some g \<Rightarrow> g
               | None \<Rightarrow> f) fresh"

text \<open>
  Modelled from the spec: on a match the new spec inherits the identifier of the previous
  spec; on no match an identifier is minted. The minting is a parameter.
\<close>

definition reconcile ::
  "((string \<rightharpoonup> PkgSpec) \<Rightarrow> PkgSpec \<Rightarrow> PkgSpec option) \<Rightarrow> (PkgSpec \<Rightarrow> string)
     \<Rightarrow> (string \<rightharpoonup> PkgSpec) \<Rightarrow> PkgSpec \<Rightarrow> PkgSpec" where
  "reconcile fuzzyMatch mint existing spec =
     (case matchPrevious fuzzyMatch existing spec of
        Some prev \<Rightarrow> spec\<lparr>schemaId := schemaId prev, funcs := preserveFuncs prev (funcs spec)\<rparr>
      | None \<Rightarrow> spec\<lparr>schemaId := mint spec\<rparr>)"

text \<open>
  Modelled from the spec: the Identity Reconciler (\<^verbatim>\<open>updateSchemaIdsForExistingSpecs\<close>,
  missing). An identifier shared by two specs of the collection is an identity conflict,
  which fails the run.
\<close>

definition identityReconciler ::
  "((string \<rightharpoonup> PkgSpec) \<Rightarrow> PkgSpec \<Rightarrow> PkgSpec option) \<Rightarrow> (PkgSpec \<Rightarrow> string)
     \<Rightarrow> (string \<rightharpoonup> PkgSpec) \<Rightarrow> PkgSpec list \<Rightarrow> string + PkgSpec list" where
  "identityReconciler fuzzyMatch mint existing specs =
     (let finalized = map (reconcile fuzzyMatch mint existing) specs
      in if distinct (map schemaId finalized) then Inr finalized
         else Inl ''identity conflict'')"

section \<open>Small collections for the stages\<close>

text \<open>The same run with a prior spec for \<open>A\<close> and the identity reconciler as last step.\<close>

definition priorA :: PkgSpec where
  "priorA = (demoDraft ''A'')\<lparr>schemaId := ''X''\<rparr>"

definition reconcilingEnv :: "nat Env" where
  "reconcilingEnv =
     demoEnv\<lparr>getExistingSpecs := [''A'' \<mapsto> priorA],
             updateSchemaIdsForExistingSpecs :=
               identityReconciler (\<lambda>existing spec. None) (\<lambda>spec. ''minted-'' @ name spec)\<rparr>"

text \<open>
  Small collections for the stages: a consumer whose need \<open>QueueArn\<close> is produced twice
  and whose need \<open>RoleArn\<close> once; two parents holding the same nested shape, one as a
  property and one as the element of an array.
\<close>

definition plainSpec :: "string \<Rightarrow> (string \<times> PropSpec) list \<Rightarrow> SocketSpec list \<Rightarrow> PkgSpec" where
  "plainSpec n ps ss =
     \<lparr>name = n, schemaId = [], props = ps, sockets = ss, funcs = [], parent = None,
      warnings = []\<rparr>"

definition outputSocket :: "string \<Rightarrow> SocketSpec" where
  "outputSocket n = \<lparr>socket_name = n, socket_type = PString, direction = Output\<rparr>"

definition demoNormalize :: "string \<Rightarrow> string" where
  "demoNormalize n = filter (\<lambda>c. c \<noteq> CHR '' '') n"

definition demoNeeds :: "PkgSpec \<Rightarrow> (string \<times> PropSpec) list" where
  "demoNeeds spec =
     (if name spec = ''Consumer''
      then [(''QueueArn'', PString), (''RoleArn'', PString), (''Missing'', PString)]
      else [])"

definition wiringSpecs :: "PkgSpec list" where
  "wiringSpecs =
     [plainSpec ''Queue1'' [] [outputSocket ''QueueArn''],
      plainSpec ''Queue2'' [] [outputSocket ''Queue Arn''],
      plainSpec ''Role'' [] [outputSocket ''RoleArn''],
      plainSpec ''Consumer'' [] []]"

definition redrivePolicy :: "(string \<times> PropSpec) list" where
  "redrivePolicy = [(''deadLetterTargetArn'', PString), (''maxReceiveCount'', PNumber)]"

definition demoShapeHash :: "(string \<times> PropSpec) list \<Rightarrow> string" where
  "demoShapeHash children = ''Sub'' @ concat (map fst children)"

definition parentSpecs :: "PkgSpec list" where
  "parentSpecs =
     [plainSpec ''Queue'' [(''QueueName'', PString), (''RedrivePolicy'', PObject redrivePolicy)] [],
      plainSpec ''Topic'' [(''Policies'', PArray (PObject redrivePolicy))] []]"

definition metadataProp :: "string \<times> PropSpec" where
  "metadataProp = (''metadata'', PMap PString)"

definition credentialSocket :: SocketSpec where
  "credentialSocket = \<lparr>socket_name = ''credential'', socket_type = PString, direction = Input\<rparr>"

definition identityFunc :: FuncSpec where
  "identityFunc = \<lparr>func_name = ''si:identity'', func_kind = Intrinsic, userAuthored = False\<rparr>"

section \<open>The two loops and the run, in closed form\<close>

lemma buildSpecs_eq:
  "buildSpecs env cfSchemas (specs, w) =
     (specs @ drafts env cfSchemas, w\<lparr>console := console w @ buildErrors env cfSchemas\<rparr>)"
  by (induction cfSchemas arbitrary: specs w)
     (simp_all add: drafts_def buildErrors_def console_log_def split: sum.splits)

lemma writeSpecs_eq:
  "writeSpecs env specs (imported, w) =
     (imported + length (written env specs),
      w\<lparr>files := store env (written env specs) (files w),
        console := console w @ writeErrors env specs,
        debugLog := debugLog w @ map (\<lambda>spec. ''Writing '' @ name spec @ ''.json'') specs\<rparr>)"
  by (induction specs arbitrary: imported w)
     (simp_all add: written_def writeOk_def writeErrors_def store_def specPath_def
        Deno_writeTextFile_def console_log_def logger_debug_def Let_def split: option.splits)

lemma generateSiSpecs_eq:
  "generateSiSpecs env w =
     (let cfSchemas = map snd (loadCfDatabase env);
          w1 = w\<lparr>console := console w @ buildErrors env cfSchemas\<rparr>
      in case executePipelineSteps env (getExistingSpecs env) (drafts env cfSchemas) of
           Inl e \<Rightarrow> (Inl e, w1)
         | Inr specs \<Rightarrow>
             (Inr (),
              \<lparr>files = store env (written env specs) (emptyDirectory env SI_SPEC_DIR (files w)),
               console = console w @ buildErrors env cfSchemas @ writeErrors env specs @
                 [summaryLine (length (written env specs)) (length (loadCfDatabase env))],
               debugLog = debugLog w @ map (\<lambda>spec. ''Writing '' @ name spec @ ''.json'') specs\<rparr>))"
  by (cases w)
     (simp add: generateSiSpecs_def buildSpecs_eq writeSpecs_eq Let_def summaryLine_def
        console_log_def split: sum.splits)

lemma executePipelineSteps_ordered:
  "executePipelineSteps env existing_specs specs = orderedPipeline env existing_specs specs"
  by (simp add: executePipelineSteps_def orderedPipeline_def runStages_def specifiedOrder_def)

subsection \<open>Schemas that fail to translate\<close>

lemma drafts_filter:
  "drafts env (filter (\<lambda>cf. \<not> translationFails env cf) cfs) = drafts env cfs"
  by (induction cfs) (auto simp: drafts_def translationFails_def split: sum.splits)

lemma length_buildErrors:
  "length (buildErrors env cfs) = length (filter (translationFails env) cfs)"
  by (induction cfs) (auto simp: buildErrors_def translationFails_def split: sum.splits)

lemma length_drafts:
  "length (drafts env cfs) + length (filter (translationFails env) cfs) = length cfs"
  by (induction cfs) (auto simp: drafts_def translationFails_def split: sum.splits)

lemma drafts_env_cong:
  "pkgSpecFromCf env' = pkgSpecFromCf env \<Longrightarrow> drafts env' cfs = drafts env cfs"
  by (simp add: drafts_def)

lemma map_snd_filter:
  "map snd (filter (\<lambda>(k, cf). P cf) db) = filter P (map snd db)"
  by (induction db) auto

lemma drafts_withoutFailing:
  "drafts (withoutFailing env) (map snd (loadCfDatabase (withoutFailing env))) =
   drafts env (map snd (loadCfDatabase env))"
proof -
  have "drafts (withoutFailing env) (map snd (loadCfDatabase (withoutFailing env))) =
        drafts env (map snd (loadCfDatabase (withoutFailing env)))"
    by (rule drafts_env_cong) (simp add: withoutFailing_def)
  also have "\<dots> =
        drafts env (filter (\<lambda>cf. \<not> translationFails env cf) (map snd (loadCfDatabase env)))"
    by (simp add: withoutFailing_def map_snd_filter)
  finally show ?thesis
    by (simp only: drafts_filter)
qed

subsection \<open>Paths of the artifacts\<close>







subsection \<open>The files after a run\<close>





subsection \<open>The small run, evaluated\<close>

lemma demo_drafts:
  "drafts demoEnv (map snd (loadCfDatabase demoEnv)) = [demoDraft ''A'', demoDraft ''C'']"
  by (simp add: drafts_def demoEnv_def demoDb_def)

lemma demo_steps:
  "executePipelineSteps demoEnv (getExistingSpecs demoEnv)
     (drafts demoEnv (map snd (loadCfDatabase demoEnv))) = Inr [demoDraft ''A'', demoDraft ''C'']"
  unfolding demo_drafts by (simp add: executePipelineSteps_def demoEnv_def)

lemma demo_written: "written demoEnv [demoDraft ''A'', demoDraft ''C''] = [demoDraft ''A'']"
  by (simp add: written_def writeOk_def specPath_def SI_SPEC_DIR_def demoEnv_def demoDraft_def)

lemma demo_writeErrors:
  "writeErrors demoEnv [demoDraft ''A'', demoDraft ''C''] =
     [''Error writing to file: C: PermissionDenied'']"
  by (simp add: writeErrors_def specPath_def SI_SPEC_DIR_def demoEnv_def demoDraft_def)

lemma demo_buildErrors:
  "buildErrors demoEnv (map snd (loadCfDatabase demoEnv)) =
     [''Error Building: B: SchemaTranslationError'']"
  by (simp add: buildErrors_def demoEnv_def demoDb_def)

lemma demo_summary: "summaryLine (Suc 0) 3 = ''built 1 out of 3''"
  by (simp add: summaryLine_def string_of_nat.simps digit_char_def)

lemma demo_artifact: "artifactOf demoEnv (demoDraft ''A'') = (''si-specs/A.json'', ''{name: A}'')"
  by (simp add: artifactOf_def specPath_def SI_SPEC_DIR_def demoEnv_def demoDraft_def)

lemma demo_empties: "emptyDirectory demoEnv = removeEntries"
  by (simp add: demoEnv_def)

lemma demo_paths:
  "in_directory SI_SPEC_DIR ''si-specs/Old.json''"
  "in_directory SI_SPEC_DIR ''si-specs/A.json''"
  "in_directory SI_SPEC_DIR ''si-specs/C.json''"
  "\<not> in_directory SI_SPEC_DIR ''README.md''"
  by (simp_all add: in_directory_def isAbsolute_def resolvePath_def SI_SPEC_DIR_def)

section \<open>The stages described by the specification\<close>

subsection \<open>Entries keyed by name\<close>

lemma addAllKeyed_Nil [simp]: "addAllKeyed key [] xs = xs"
  by (simp add: addAllKeyed_def)

lemma addAllKeyed_Cons [simp]:
  "addAllKeyed key (x # new) xs = addAllKeyed key new (addKeyed key x xs)"
  by (simp add: addAllKeyed_def)

lemma keys_addKeyed: "key ` set (addKeyed key x xs) = insert (key x) (key ` set xs)"
  by (auto simp: addKeyed_def)

lemma keys_addAllKeyed: "key ` set (addAllKeyed key new xs) = key ` set new \<union> key ` set xs"
  by (induction new arbitrary: xs) (auto simp: keys_addKeyed)

lemma addAllKeyed_present:
  "key ` set new \<subseteq> key ` set xs \<Longrightarrow> addAllKeyed key new xs = xs"
  by (induction new arbitrary: xs) (auto simp: addKeyed_def)

lemma addAllKeyed_idem:
  "addAllKeyed key new (addAllKeyed key new xs) = addAllKeyed key new xs"
  by (rule addAllKeyed_present) (simp add: keys_addAllKeyed)

lemma distinct_addKeyed:
  "distinct (map key xs) \<Longrightarrow> distinct (map key (addKeyed key x xs))"
  by (auto simp: addKeyed_def)

lemma distinct_addAllKeyed:
  "distinct (map key xs) \<Longrightarrow> distinct (map key (addAllKeyed key new xs))"
  by (induction new arbitrary: xs) (auto simp: distinct_addKeyed)

lemma set_addKeyed: "set (addKeyed key x xs) \<subseteq> insert x (set xs)"
  by (auto simp: addKeyed_def)

lemma set_addAllKeyed: "set (addAllKeyed key new xs) \<subseteq> set new \<union> set xs"
proof (induction new arbitrary: xs)
  case Nil
  then show ?case by simp
next
  case (Cons x new)
  have "set (addAllKeyed key (x # new) xs) \<subseteq> set new \<union> set (addKeyed key x xs)"
    using Cons.IH by simp
  also have "\<dots> \<subseteq> set new \<union> insert x (set xs)"
    using set_addKeyed [of key x xs] by blast
  finally show ?case by auto
qed

lemma distinct_keys_from_empty: "distinct (map key (addAllKeyed key new []))"
  by (rule distinct_addAllKeyed) simp

lemma one_per_key:
  "distinct (map key ys) \<Longrightarrow> k \<in> key ` set ys \<Longrightarrow> length (filter (\<lambda>y. key y = k) ys) = 1"
proof (induction ys)
  case Nil
  then show ?case by simp
next
  case (Cons y ys)
  show ?case
  proof (cases "key y = k")
    case True
    have "key y \<notin> key ` set ys"
      using Cons.prems(1) by simp
    then have "\<forall>z \<in> set ys. key z \<noteq> k"
      using True by blast
    then have "filter (\<lambda>y. key y = k) ys = []"
      by (simp add: filter_empty_conv)
    then show ?thesis using True by simp
  next
    case False
    then show ?thesis using Cons by auto
  qed
qed

subsection \<open>Candidates and their replacement\<close>

lemma candidateShapes_qualify:
  "cs \<in> set (candidateShapes threshold p) \<Longrightarrow> qualifiesForPromotion threshold cs"
proof (induction p)
  case (PObject children)
  then show ?case
    by (auto split: if_splits)
next
  case (PArray element)
  then show ?case
    by (cases element) auto
qed simp_all

lemma no_candidates_after_rewrite:
  "candidateShapes threshold (rewriteProp threshold shapeHash p) = []"
proof (induction p)
  case (PObject children)
  show ?case
  proof (cases "qualifiesForPromotion threshold children")
    case True
    then show ?thesis by simp
  next
    case False
    have "\<And>n q. (n, q) \<in> set children \<Longrightarrow>
            candidateShapes threshold (rewriteProp threshold shapeHash q) = []"
      using PObject.IH by fastforce
    then have "concat (map snd (map (map_prod id (candidateShapes threshold))
                 (map (map_prod id (rewriteProp threshold shapeHash)) children))) = []"
      by force
    moreover have "\<not> qualifiesForPromotion threshold
                      (map (map_prod id (rewriteProp threshold shapeHash)) children)"
      using False by (simp add: qualifiesForPromotion_def)
    ultimately show ?thesis
      using False by simp
  qed
next
  case (PArray element)
  then show ?case
    by (cases element) (auto split: if_splits)
qed simp_all

lemma candidatesIn_rewriteProps:
  "candidatesIn threshold (rewriteProps threshold shapeHash children) = []"
  by (induction children) (auto simp: candidatesIn_def rewriteProps_def no_candidates_after_rewrite)

lemma outermost_replaced:
  "outermostAt threshold path p = Some c \<Longrightarrow>
   propAt path (rewriteProp threshold shapeHash p) = Some (PRef (shapeHash c))"
proof (induction path arbitrary: p)
  case Nil
  then show ?case
    by (cases p) (auto split: if_splits)
next
  case (Cons step path)
  show ?case
  proof (cases step)
    case (Field i)
    then show ?thesis
      using Cons by (cases p) (auto split: if_splits)
  next
    case Element
    show ?thesis
    proof (cases p)
      case (PArray element)
      show ?thesis
      proof (cases element)
        case (PObject children)
        have rec: "outermostAt threshold path element = Some c"
          using Cons.prems Element PArray PObject by simp
        have ih: "propAt path (rewriteProp threshold shapeHash element) = Some (PRef (shapeHash c))"
          by (rule Cons.IH [OF rec])
        have rw: "rewriteProp threshold shapeHash (PArray element)
            = PArray (rewriteProp threshold shapeHash element)"
          by (simp add: PObject)
        show ?thesis
          unfolding Element PArray rw using ih by simp
      qed (use Cons.prems Element PArray in auto)
    qed (use Cons Element in auto)
  qed
qed

lemma outermost_found:
  "outermostAt threshold path p = Some c \<Longrightarrow> c \<in> set (candidateShapes threshold p)"
proof (induction path arbitrary: p)
  case Nil
  then show ?case
    by (cases p) (auto split: if_splits)
next
  case (Cons step path)
  show ?case
  proof (cases step)
    case (Field i)
    show ?thesis
    proof (cases p)
      case (PObject children)
      then have i: "i < length children" and rec: "outermostAt threshold path (snd (children ! i)) = Some c"
        using Cons.prems Field by (auto split: if_splits)
      have "c \<in> set (candidateShapes threshold (snd (children ! i)))"
        by (rule Cons.IH [OF rec])
      moreover have "children ! i \<in> set children"
        using i by simp
      ultimately show ?thesis
        using PObject by force
    qed (use Cons Field in auto)
  next
    case Element
    show ?thesis
    proof (cases p)
      case (PArray element)
      show ?thesis
      proof (cases element)
        case (PObject children)
        have rec: "outermostAt threshold path element = Some c"
          using Cons.prems Element PArray PObject by simp
        have ih: "c \<in> set (candidateShapes threshold element)"
          by (rule Cons.IH [OF rec])
        have cs: "candidateShapes threshold (PArray element) = candidateShapes threshold element"
          by (simp add: PObject)
        show ?thesis
          unfolding PArray cs by (rule ih)
      qed (use Cons.prems Element PArray in auto)
    qed (use Cons Element in auto)
  qed
qed


lemma rewriteProps_nth:
  "j < length ps \<Longrightarrow>
   snd (rewriteProps threshold shapeHash ps ! j) = rewriteProp threshold shapeHash (snd (ps ! j))"
  by (simp add: rewriteProps_def)

lemma rewriteProps_names:
  "map fst (rewriteProps threshold shapeHash ps) = map fst ps"
  by (simp add: rewriteProps_def comp_def)

lemma extractor_parent:
  "i < length specs \<Longrightarrow>
   subAssetExtractor threshold shapeHash specs ! i
     = (specs ! i)\<lparr>props := rewriteProps threshold shapeHash (props (specs ! i))\<rparr>"
  by (simp add: subAssetExtractor_def nth_append)

lemma extractor_created:
  "drop (length specs) (subAssetExtractor threshold shapeHash specs)
     = extractedSubAssets threshold shapeHash specs"
  by (simp add: subAssetExtractor_def)

lemma extracted_is_found:
  assumes "sub \<in> set (extractedSubAssets threshold shapeHash specs)"
  shows "\<exists>(pn, c) \<in> set (foundShapes threshold specs). sub = subAssetFor threshold shapeHash pn c"
proof -
  have "sub \<in> set (map (\<lambda>(parentName, children).
        subAssetFor threshold shapeHash parentName children) (foundShapes threshold specs))"
    using assms set_addAllKeyed [of name _ "[]"] unfolding extractedSubAssets_def by fastforce
  then show ?thesis by auto
qed

subsection \<open>Resolutions\<close>

lemma wiredSockets_resolve:
  "wiredSockets (map (\<lambda>need. resolve need (q need)) ns) =
     map inputSocketFor (filter (\<lambda>need. length (q need) = 1) ns)"
proof (induction ns)
  case Nil
  then show ?case by (simp add: wiredSockets_def)
next
  case (Cons need ns)
  have step: "wiredSockets (map (\<lambda>need. resolve need (q need)) (need # ns)) =
      (case resolve need (q need) of Wired s \<Rightarrow> [s] | _ \<Rightarrow> []) @
      wiredSockets (map (\<lambda>need. resolve need (q need)) ns)"
    by (simp add: wiredSockets_def)
  show ?case
  proof (cases "q need")
    case Nil
    then show ?thesis using Cons.IH step by simp
  next
    case (Cons c cs)
    then show ?thesis using Cons.IH step by (cases cs) simp_all
  qed
qed

lemma recordedWarnings_resolve:
  "recordedWarnings (map (\<lambda>need. resolve need (q need)) ns) =
     map ambiguityWarning (filter (\<lambda>need. 1 < length (q need)) ns)"
proof (induction ns)
  case Nil
  then show ?case by (simp add: recordedWarnings_def)
next
  case (Cons need ns)
  have step: "recordedWarnings (map (\<lambda>need. resolve need (q need)) (need # ns)) =
      (case resolve need (q need) of Ambiguous m \<Rightarrow> [m] | _ \<Rightarrow> []) @
      recordedWarnings (map (\<lambda>need. resolve need (q need)) ns)"
    by (simp add: recordedWarnings_def)
  show ?case
  proof (cases "q need")
    case Nil
    then show ?thesis using Cons.IH step by simp
  next
    case (Cons c cs)
    then show ?thesis using Cons.IH step by (cases cs) simp_all
  qed
qed

lemma set_outputIndex:
  "set (outputIndex specs) =
     {(owner, out). \<exists>other \<in> set specs. name other = owner \<and> out \<in> set (sockets other)
                     \<and> direction out = Output}"
  by (auto simp: outputIndex_def)

subsection \<open>Reconciliation of one spec\<close>

lemma name_reconcile: "name (reconcile fuzzyMatch mint existing spec) = name spec"
  by (simp add: reconcile_def split: option.splits)

lemma schemaId_reconcile_exact:
  "existing (name spec) = Some prior \<Longrightarrow>
   schemaId (reconcile fuzzyMatch mint existing spec) = schemaId prior"
  by (simp add: reconcile_def matchPrevious_def)

subsection \<open>The small collections, evaluated\<close>

lemma wiring_index:
  "outputIndex wiringSpecs =
     [(''Queue1'', outputSocket ''QueueArn''), (''Queue2'', outputSocket ''Queue Arn''),
      (''Role'', outputSocket ''RoleArn'')]"
  by (simp add: outputIndex_def wiringSpecs_def plainSpec_def outputSocket_def)

lemma parent_found:
  "foundShapes 1 parentSpecs = [(''Queue'', redrivePolicy), (''Topic'', redrivePolicy)]"
  by (simp add: foundShapes_def parentSpecs_def plainSpec_def candidatesIn_def redrivePolicy_def
        qualifiesForPromotion_def)

lemma parent_extracted:
  "subAssetExtractor 1 demoShapeHash parentSpecs =
     [plainSpec ''Queue''
        [(''QueueName'', PString),
         (''RedrivePolicy'', PRef ''SubdeadLetterTargetArnmaxReceiveCount'')] [],
      plainSpec ''Topic'' [(''Policies'', PArray (PRef ''SubdeadLetterTargetArnmaxReceiveCount''))] [],
      (plainSpec ''SubdeadLetterTargetArnmaxReceiveCount'' redrivePolicy [])
        \<lparr>parent := Some ''Queue''\<rparr>]"
  unfolding subAssetExtractor_def extractedSubAssets_def parent_found
  by (simp add: parentSpecs_def plainSpec_def rewriteProps_def redrivePolicy_def
        qualifiesForPromotion_def demoShapeHash_def subAssetFor_def addKeyed_def)

lemma reconciling_run:
  "executePipelineSteps reconcilingEnv (getExistingSpecs reconcilingEnv)
     [demoDraft ''A'', demoDraft ''C'']
     = Inr [(demoDraft ''A'')\<lparr>schemaId := ''X''\<rparr>, (demoDraft ''C'')\<lparr>schemaId := ''minted-C''\<rparr>]"
  by (simp add: executePipelineSteps_def reconcilingEnv_def demoEnv_def identityReconciler_def
        reconcile_def matchPrevious_def priorA_def demoDraft_def preserveFuncs_def)

lemma reconciling_stages:
  "runStages reconcilingEnv specifiedOrder [demoDraft ''A'', demoDraft ''C'']
     = [demoDraft ''A'', demoDraft ''C'']"
  by (simp add: runStages_def specifiedOrder_def reconcilingEnv_def demoEnv_def)

section \<open>Properties of the generator and of the stages\<close>

text \<open>
  C2. In every run the stages are applied to the whole collection in the specified order:
  output sockets, default props and sockets, action, leaf and management functions,
  sub-asset extraction, intrinsic functions, input sockets, asset functions, and the
  identity reconciliation last. The steps of the generator are the fold of the specified
  order; the intrinsic step receives the output of the sub-asset step, so it covers the
  sub-assets made in the same run; and the run succeeds or rejects as the ordered pipeline
  does on all the drafts.
\<close>

theorem stages_in_specified_order:
  "executePipelineSteps env existing_specs specs = orderedPipeline env existing_specs specs
   \<and> runStages env specifiedOrder specs =
       generateAssetFuncs env (createInputSocketsBasedOnOutputSockets env
         (generateIntrinsicFuncs env (generateSubAssets env
           (runStages env (take 5 specifiedOrder) specs))))
   \<and> fst (generateSiSpecs env w) =
       map_sum id (\<lambda>finalized. ())
         (orderedPipeline env (getExistingSpecs env) (drafts env (map snd (loadCfDatabase env))))"
proof -
  have b: "runStages env specifiedOrder specs =
       generateAssetFuncs env (createInputSocketsBasedOnOutputSockets env
         (generateIntrinsicFuncs env (generateSubAssets env
           (runStages env (take 5 specifiedOrder) specs))))"
    by (simp add: runStages_def specifiedOrder_def)
  have c: "fst (generateSiSpecs env w) =
       map_sum id (\<lambda>finalized. ())
         (orderedPipeline env (getExistingSpecs env) (drafts env (map snd (loadCfDatabase env))))"
    by (simp add: generateSiSpecs_eq Let_def executePipelineSteps_ordered split: sum.splits)
  show ?thesis
    using b c by (simp add: executePipelineSteps_ordered)
qed

theorem stages_in_specified_order_witness:
  "executePipelineSteps tracingEnv Map.empty [demoDraft ''A''] =
     Inr [(demoDraft ''A'')\<lparr>warnings :=
            [''output sockets'', ''defaults'', ''action'', ''leaf'', ''management'',
             ''sub-assets'', ''intrinsic'', ''input sockets'', ''asset'', ''identity'']\<rparr>,
          (demoDraft ''Sub'')\<lparr>warnings :=
            [''intrinsic'', ''input sockets'', ''asset'', ''identity'']\<rparr>]"
proof -
  have "orderedPipeline tracingEnv Map.empty [demoDraft ''A''] =
     Inr [(demoDraft ''A'')\<lparr>warnings :=
            [''output sockets'', ''defaults'', ''action'', ''leaf'', ''management'',
             ''sub-assets'', ''intrinsic'', ''input sockets'', ''asset'', ''identity'']\<rparr>,
          (demoDraft ''Sub'')\<lparr>warnings :=
            [''intrinsic'', ''input sockets'', ''asset'', ''identity'']\<rparr>]"
    by (simp add: orderedPipeline_def runStages_def specifiedOrder_def tracingEnv_def mark_def
          demoDraft_def)
  then show ?thesis
    using stages_in_specified_order [of tracingEnv Map.empty "[demoDraft ''A'']"]
    by simp
qed

text \<open>
  C4. A schema whose translation throws is skipped alone and the batch goes on: the first
  loop keeps, in order, exactly the drafts of the schemas that translate and prints one
  line per failing schema, so the failures can be counted; the run then takes these drafts
  through the steps and, unless the reconciliation rejects, empties the directory, writes
  the finalized specs and prints the summary. A failing schema leaves no other trace: the
  result and the files are those of the run on the database without the failing schemas.
\<close>

theorem failing_schema_skipped:
  "buildSpecs env cfSchemas ([], w) =
     (drafts env cfSchemas, w\<lparr>console := console w @ buildErrors env cfSchemas\<rparr>)
   \<and> map Inr (drafts env cfSchemas) = filter (\<lambda>r. \<not> isl r) (map (pkgSpecFromCf env) cfSchemas)
   \<and> length (buildErrors env cfSchemas) = length (filter (translationFails env) cfSchemas)
   \<and> length (drafts env cfSchemas) + length (filter (translationFails env) cfSchemas)
       = length cfSchemas
   \<and> generateSiSpecs env w =
       (case executePipelineSteps env (getExistingSpecs env)
               (drafts env (map snd (loadCfDatabase env))) of
          Inl e \<Rightarrow>
            (Inl e, w\<lparr>console := console w @ buildErrors env (map snd (loadCfDatabase env))\<rparr>)
        | Inr specs \<Rightarrow>
            (Inr (),
             \<lparr>files = store env (written env specs) (emptyDirectory env SI_SPEC_DIR (files w)),
              console = console w @ buildErrors env (map snd (loadCfDatabase env)) @
                writeErrors env specs @
                [summaryLine (length (written env specs)) (length (loadCfDatabase env))],
              debugLog = debugLog w @ map (\<lambda>spec. ''Writing '' @ name spec @ ''.json'') specs\<rparr>))
   \<and> fst (generateSiSpecs env w) = fst (generateSiSpecs (withoutFailing env) w)
   \<and> files (snd (generateSiSpecs env w)) = files (snd (generateSiSpecs (withoutFailing env) w))"
proof -
  let ?env' = "withoutFailing env"
  have steps: "\<And>ex specs. executePipelineSteps ?env' ex specs = executePipelineSteps env ex specs"
    by (simp add: executePipelineSteps_def withoutFailing_def)
  have ex: "getExistingSpecs ?env' = getExistingSpecs env"
    by (simp add: withoutFailing_def)
  have wo: "writeOk ?env' = writeOk env"
    by (rule ext) (simp add: writeOk_def withoutFailing_def)
  have wr: "\<And>specs. written ?env' specs = written env specs"
    by (simp add: written_def wo)
  have st: "\<And>specs fs. store ?env' specs fs = store env specs fs"
    by (simp add: store_def withoutFailing_def)
  have em: "emptyDirectory ?env' = emptyDirectory env"
    by (simp add: withoutFailing_def)
  have same: "fst (generateSiSpecs env w) = fst (generateSiSpecs ?env' w)
      \<and> files (snd (generateSiSpecs env w)) = files (snd (generateSiSpecs ?env' w))"
    unfolding generateSiSpecs_eq Let_def drafts_withoutFailing steps ex wr st em
    by (simp split: sum.splits)
  have kept: "map Inr (drafts env cfSchemas)
      = filter (\<lambda>r. \<not> isl r) (map (pkgSpecFromCf env) cfSchemas)"
    by (induction cfSchemas) (auto simp: drafts_def split: sum.splits)
  have run: "generateSiSpecs env w =
       (case executePipelineSteps env (getExistingSpecs env)
               (drafts env (map snd (loadCfDatabase env))) of
          Inl e \<Rightarrow>
            (Inl e, w\<lparr>console := console w @ buildErrors env (map snd (loadCfDatabase env))\<rparr>)
        | Inr specs \<Rightarrow>
            (Inr (),
             \<lparr>files = store env (written env specs) (emptyDirectory env SI_SPEC_DIR (files w)),
              console = console w @ buildErrors env (map snd (loadCfDatabase env)) @
                writeErrors env specs @
                [summaryLine (length (written env specs)) (length (loadCfDatabase env))],
              debugLog = debugLog w @ map (\<lambda>spec. ''Writing '' @ name spec @ ''.json'') specs\<rparr>))"
    by (simp add: generateSiSpecs_eq Let_def)
  show ?thesis
    using same kept run by (simp add: buildSpecs_eq length_buildErrors length_drafts)
qed

theorem failing_schema_skipped_witness:
  "buildSpecs demoEnv (map snd demoDb) ([], demoWorld) =
     ([demoDraft ''A'', demoDraft ''C''],
      demoWorld\<lparr>console := [''Error Building: B: SchemaTranslationError'']\<rparr>)
   \<and> length (filter (translationFails demoEnv) (map snd demoDb)) = 1
   \<and> map fst (loadCfDatabase (withoutFailing demoEnv)) = [''A'', ''C'']
   \<and> fst (generateSiSpecs demoEnv demoWorld) = Inr ()
   \<and> files (snd (generateSiSpecs demoEnv demoWorld)) ''si-specs/A.json'' = Some ''{name: A}''
   \<and> files (snd (generateSiSpecs demoEnv demoWorld)) =
       files (snd (generateSiSpecs (withoutFailing demoEnv) demoWorld))"
proof -
  note th = failing_schema_skipped [of demoEnv "map snd demoDb" demoWorld]
  have d: "drafts demoEnv (map snd demoDb) = [demoDraft ''A'', demoDraft ''C'']"
    using demo_drafts by (simp add: demoEnv_def)
  have b: "buildErrors demoEnv (map snd demoDb) = [''Error Building: B: SchemaTranslationError'']"
    using demo_buildErrors by (simp add: demoEnv_def)
  have c: "console demoWorld = []"
    by (simp add: demoWorld_def)
  have dl: "debugLog demoWorld = []"
    by (simp add: demoWorld_def)
  have len: "length (loadCfDatabase demoEnv) = 3"
    by (simp add: demoEnv_def demoDb_def)
  have nm: "name (demoDraft n) = n" for n
    by (simp add: demoDraft_def)
  have one: "buildSpecs demoEnv (map snd demoDb) ([], demoWorld) =
     ([demoDraft ''A'', demoDraft ''C''],
      demoWorld\<lparr>console := [''Error Building: B: SchemaTranslationError'']\<rparr>)"
    using th [THEN conjunct1] by (simp add: d b c)
  have two: "length (filter (translationFails demoEnv) (map snd demoDb)) = 1"
    using th [THEN conjunct2, THEN conjunct2, THEN conjunct1] by (simp add: b)
  have three: "map fst (loadCfDatabase (withoutFailing demoEnv)) = [''A'', ''C'']"
    by (simp add: withoutFailing_def translationFails_def demoEnv_def demoDb_def)
  have run: "generateSiSpecs demoEnv demoWorld =
      (Inr (),
       \<lparr>files = store demoEnv [demoDraft ''A''] (removeEntries SI_SPEC_DIR (files demoWorld)),
        console = [''Error Building: B: SchemaTranslationError'',
                   ''Error writing to file: C: PermissionDenied'', ''built 1 out of 3''],
        debugLog = [''Writing A.json'', ''Writing C.json'']\<rparr>)"
    using th [THEN conjunct2, THEN conjunct2, THEN conjunct2, THEN conjunct2, THEN conjunct1]
    by (simp add: demo_steps demo_written demo_writeErrors demo_buildErrors demo_summary
          demo_empties c len dl nm)
  have four: "fst (generateSiSpecs demoEnv demoWorld) = Inr ()"
    by (simp add: run)
  have five: "files (snd (generateSiSpecs demoEnv demoWorld)) ''si-specs/A.json'' = Some ''{name: A}''"
    unfolding run by (simp add: store_def specPath_def SI_SPEC_DIR_def demoEnv_def demoDraft_def)
  have six: "files (snd (generateSiSpecs demoEnv demoWorld)) =
       files (snd (generateSiSpecs (withoutFailing demoEnv) demoWorld))"
    using th by blast
  show ?thesis
    using one two three four five six by blast
qed

text \<open>
  C5. When the finalized collection is \<open>specs\<close>, the run completes; the files written are
  those of the specs whose write succeeds, a spec whose write fails is skipped and not
  counted, and the console holds the reason of every schema and of every spec that failed,
  then the line with the number of specs written out of the number of schemas attempted.
\<close>

theorem emission_failure_skipped:
  assumes "executePipelineSteps env (getExistingSpecs env)
             (drafts env (map snd (loadCfDatabase env))) = Inr specs"
  shows "fst (generateSiSpecs env w) = Inr ()
       \<and> files (snd (generateSiSpecs env w)) =
           store env (written env specs) (emptyDirectory env SI_SPEC_DIR (files w))
       \<and> console (snd (generateSiSpecs env w)) =
           console w @ buildErrors env (map snd (loadCfDatabase env)) @ writeErrors env specs @
           [summaryLine (length (written env specs)) (length (loadCfDatabase env))]
       \<and> length (written env specs) + length (writeErrors env specs) = length specs"
proof -
  have "length (written env specs) + length (writeErrors env specs) = length specs"
    by (induction specs) (auto simp: written_def writeOk_def writeErrors_def split: option.splits)
  then show ?thesis
    using assms by (simp add: generateSiSpecs_eq Let_def)
qed

theorem emission_failure_skipped_witness:
  "fst (generateSiSpecs demoEnv demoWorld) = Inr ()
   \<and> console (snd (generateSiSpecs demoEnv demoWorld)) =
        [''Error Building: B: SchemaTranslationError'',
         ''Error writing to file: C: PermissionDenied'',
         ''built 1 out of 3'']
   \<and> files (snd (generateSiSpecs demoEnv demoWorld)) ''si-specs/A.json'' = Some ''{name: A}''
   \<and> files (snd (generateSiSpecs demoEnv demoWorld)) ''si-specs/C.json'' = None"
proof -
  have len: "length (loadCfDatabase demoEnv) = 3"
    by (simp add: demoEnv_def demoDb_def)
  have con: "console demoWorld = []"
    by (simp add: demoWorld_def)
  have st: "store demoEnv [demoDraft ''A''] (emptyDirectory demoEnv SI_SPEC_DIR (files demoWorld))
              ''si-specs/A.json'' = Some ''{name: A}''"
    by (simp add: store_def specPath_def SI_SPEC_DIR_def demoEnv_def demoDraft_def)
  have st': "store demoEnv [demoDraft ''A''] (emptyDirectory demoEnv SI_SPEC_DIR (files demoWorld))
              ''si-specs/C.json'' = None"
    using demo_paths(3)
    by (simp add: store_def specPath_def demoDraft_def demo_empties removeEntries_def)
  show ?thesis
    using emission_failure_skipped [OF demo_steps, of demoWorld]
    by (simp add: demo_written demo_writeErrors demo_buildErrors demo_summary len con st st')
qed




text \<open>
  C10. For every service name, \<^verbatim>\<open>generateSiSpecForService\<close> returns the draft of the spec
  builder for the schema of that service and nothing more: it returns a spec exactly when
  the service is found and its schema translates to that spec, and the result does not
  depend on any pipeline step nor on the prior specs.
\<close>

theorem service_spec_is_draft:
  "(generateSiSpecForService env serviceName = Inr spec \<longleftrightarrow>
      (\<exists>cf. getServiceByName env serviceName = Inr cf \<and> pkgSpecFromCf env cf = Inr spec))
   \<and> generateSiSpecForService
        (env\<lparr>generateOutputSocketsFromResourceProps := s1,
             addDefaultPropsAndSockets := s2,
             generateDefaultActionFuncs := s3,
             generateDefaultLeafFuncs := s4,
             generateDefaultManagementFuncs := s5,
             generateSubAssets := s6,
             generateIntrinsicFuncs := s7,
             createInputSocketsBasedOnOutputSockets := s8,
             generateAssetFuncs := s9,
             updateSchemaIdsForExistingSpecs := s10,
             getExistingSpecs := existing\<rparr>) serviceName
      = generateSiSpecForService env serviceName"
  by (auto simp: generateSiSpecForService_def split: sum.splits)

theorem service_spec_is_draft_witness:
  "generateSiSpecForService demoEnv ''A'' = Inr (demoDraft ''A'')
   \<and> getServiceByName demoEnv ''A'' = Inr \<lparr>typeName = ''A'', rawProperties = 1\<rparr>
   \<and> pkgSpecFromCf demoEnv \<lparr>typeName = ''A'', rawProperties = 1\<rparr> = Inr (demoDraft ''A'')"
proof -
  have g: "getServiceByName demoEnv ''A'' = Inr \<lparr>typeName = ''A'', rawProperties = 1\<rparr>"
    by (simp add: demoEnv_def demoDb_def)
  have p: "pkgSpecFromCf demoEnv \<lparr>typeName = ''A'', rawProperties = 1\<rparr> = Inr (demoDraft ''A'')"
    by (simp add: demoEnv_def)
  have "generateSiSpecForService demoEnv ''A'' = Inr (demoDraft ''A'')"
    using service_spec_is_draft [of demoEnv "''A''" "demoDraft ''A''", THEN conjunct1] g p
    by blast
  then show ?thesis using g p by simp
qed

text \<open>
  C1. Identity stability: when the prior specs hold a spec for the type \<open>T\<close> and the steps
  before the reconciliation yield a spec named \<open>T\<close>, as they do from an unchanged schema,
  then in a run that completes with the identity reconciler as its last step the
  finalized collection holds a spec named \<open>T\<close>, and every finalized spec named \<open>T\<close>
  carries the identifier of the prior spec, not a minted one.
\<close>

theorem identity_stable:
  assumes recon: "updateSchemaIdsForExistingSpecs env = identityReconciler fuzzyMatch mint"
    and run: "executePipelineSteps env existing drafted = Inr finalized"
    and prior: "existing T = Some prior"
    and spec: "spec \<in> set (runStages env specifiedOrder drafted)"
    and T: "name spec = T"
  shows "(\<exists>new \<in> set finalized. name new = T \<and> schemaId new = schemaId prior)
       \<and> (\<forall>new \<in> set finalized. name new = T \<longrightarrow> schemaId new = schemaId prior)"
proof -
  let ?pre = "runStages env specifiedOrder drafted"
  have "identityReconciler fuzzyMatch mint existing ?pre = Inr finalized"
    using run recon by (simp add: executePipelineSteps_ordered orderedPipeline_def)
  then have fin: "finalized = map (reconcile fuzzyMatch mint existing) ?pre"
    by (simp add: identityReconciler_def Let_def split: if_splits)
  have one: "reconcile fuzzyMatch mint existing spec \<in> set finalized"
    using spec by (simp add: fin)
  have ex: "\<exists>new \<in> set finalized. name new = T \<and> schemaId new = schemaId prior"
    using one T prior
    by (auto simp: name_reconcile schemaId_reconcile_exact
          intro!: bexI [of _ "reconcile fuzzyMatch mint existing spec"])
  have all: "\<forall>new \<in> set finalized. name new = T \<longrightarrow> schemaId new = schemaId prior"
    using prior by (auto simp: fin name_reconcile schemaId_reconcile_exact)
  show ?thesis using ex all by simp
qed

theorem identity_stable_witness:
  "executePipelineSteps reconcilingEnv (getExistingSpecs reconcilingEnv)
     [demoDraft ''A'', demoDraft ''C'']
     = Inr [(demoDraft ''A'')\<lparr>schemaId := ''X''\<rparr>, (demoDraft ''C'')\<lparr>schemaId := ''minted-C''\<rparr>]
   \<and> getExistingSpecs reconcilingEnv ''A'' = Some priorA
   \<and> schemaId priorA = ''X''
   \<and> schemaId (demoDraft ''A'') = ''new-A''
   \<and> (\<exists>new \<in> set [(demoDraft ''A'')\<lparr>schemaId := ''X''\<rparr>, (demoDraft ''C'')\<lparr>schemaId := ''minted-C''\<rparr>].
         name new = ''A'' \<and> schemaId new = ''X'')"
proof -
  have recon: "updateSchemaIdsForExistingSpecs reconcilingEnv =
      identityReconciler (\<lambda>existing spec. None) (\<lambda>spec. ''minted-'' @ name spec)"
    by (simp add: reconcilingEnv_def)
  have prior: "getExistingSpecs reconcilingEnv ''A'' = Some priorA"
    by (simp add: reconcilingEnv_def)
  have spec: "demoDraft ''A''
      \<in> set (runStages reconcilingEnv specifiedOrder [demoDraft ''A'', demoDraft ''C''])"
    by (simp add: reconciling_stages)
  have nm: "name (demoDraft ''A'') = ''A''"
    by (simp add: demoDraft_def)
  have x: "schemaId priorA = ''X''" "schemaId (demoDraft ''A'') = ''new-A''"
    by (simp_all add: priorA_def demoDraft_def)
  show ?thesis
    using identity_stable [OF recon reconciling_run prior spec nm] reconciling_run prior x
    by simp
qed

text \<open>
  C6. Idempotence of augmentation: applying the default augmenter twice to a collection
  gives what applying it once gives, and so does the intrinsic attacher; the second
  application adds no property, socket or function.
\<close>

theorem augmentation_idempotent:
  "defaultAugmenter standardProps standardSockets
     (defaultAugmenter standardProps standardSockets specs)
     = defaultAugmenter standardProps standardSockets specs
   \<and> intrinsicAttacher intrinsics (intrinsicAttacher intrinsics specs)
     = intrinsicAttacher intrinsics specs"
  by (simp add: defaultAugmenter_def intrinsicAttacher_def addAllKeyed_idem)

theorem augmentation_idempotent_witness:
  "defaultAugmenter [metadataProp] [credentialSocket] [plainSpec ''Queue'' [(''QueueName'', PString)] []]
     = [plainSpec ''Queue'' [(''QueueName'', PString), metadataProp] [credentialSocket]]
   \<and> defaultAugmenter [metadataProp] [credentialSocket]
       (defaultAugmenter [metadataProp] [credentialSocket]
          [plainSpec ''Queue'' [(''QueueName'', PString)] []])
     = [plainSpec ''Queue'' [(''QueueName'', PString), metadataProp] [credentialSocket]]
   \<and> intrinsicAttacher [identityFunc]
       (intrinsicAttacher [identityFunc] [plainSpec ''Queue'' [(''QueueName'', PString)] []])
     = [(plainSpec ''Queue'' [(''QueueName'', PString)] [])\<lparr>funcs := [identityFunc]\<rparr>]"
proof -
  have a: "defaultAugmenter [metadataProp] [credentialSocket]
             [plainSpec ''Queue'' [(''QueueName'', PString)] []]
           = [plainSpec ''Queue'' [(''QueueName'', PString), metadataProp] [credentialSocket]]"
    by (simp add: defaultAugmenter_def plainSpec_def addKeyed_def metadataProp_def)
  have b: "intrinsicAttacher [identityFunc] [plainSpec ''Queue'' [(''QueueName'', PString)] []]
           = [(plainSpec ''Queue'' [(''QueueName'', PString)] [])\<lparr>funcs := [identityFunc]\<rparr>]"
    by (simp add: intrinsicAttacher_def plainSpec_def addKeyed_def)
  show ?thesis
    using augmentation_idempotent [of "[metadataProp]" "[credentialSocket]"
        "[plainSpec ''Queue'' [(''QueueName'', PString)] []]" "[identityFunc]"]
    by (simp add: a b)
qed

text \<open>
  C7. Sub-asset deduplication: for a shape that qualifies for promotion, found at any
  path of any spec of the collection, the specs the extractor adds to the collection hold
  exactly one spec named by the hash of the shape, however often and wherever the shape
  occurs, and it is the only spec of that name in the whole resulting collection when no
  spec of the input has that name. Every added spec is the sub-asset of a found shape,
  with the parent it was found in. Every spec of the input keeps its place and everything
  but the values of its properties; each inline occurrence of the shape, in a spec of the
  input or in the structure carried by a sub-asset, is in the result the reference to the
  name given by the hash; and no candidate is left inline in the resulting collection.
\<close>

theorem identical_shapes_one_sub_asset:
  assumes "(parentName, children) \<in> set (foundShapes threshold specs)"
  shows "length (filter (\<lambda>sub. name sub = shapeHash children)
                   (drop (length specs) (subAssetExtractor threshold shapeHash specs))) = 1
       \<and> (shapeHash children \<notin> name ` set specs \<longrightarrow>
            length (filter (\<lambda>sub. name sub = shapeHash children)
                      (subAssetExtractor threshold shapeHash specs)) = 1)
       \<and> (\<forall>sub \<in> set (drop (length specs) (subAssetExtractor threshold shapeHash specs)).
             \<exists>(pn, c) \<in> set (foundShapes threshold specs).
               name sub = shapeHash c \<and> parent sub = Some pn \<and> map fst (props sub) = map fst c
               \<and> (\<forall>j path. j < length c \<longrightarrow>
                      outermostAt threshold path (snd (c ! j)) = Some children \<longrightarrow>
                      propAt path (snd (props sub ! j)) = Some (PRef (shapeHash children))))
       \<and> (\<forall>i < length specs.
             subAssetExtractor threshold shapeHash specs ! i
               = (specs ! i)\<lparr>props := props (subAssetExtractor threshold shapeHash specs ! i)\<rparr>
             \<and> map fst (props (subAssetExtractor threshold shapeHash specs ! i))
                 = map fst (props (specs ! i))
             \<and> (\<forall>j path. j < length (props (specs ! i)) \<longrightarrow>
                    outermostAt threshold path (snd (props (specs ! i) ! j)) = Some children \<longrightarrow>
                    propAt path (snd (props (subAssetExtractor threshold shapeHash specs ! i) ! j))
                      = Some (PRef (shapeHash children))))
       \<and> (\<forall>spec \<in> set (subAssetExtractor threshold shapeHash specs).
             candidatesIn threshold (props spec) = [])"
proof -
  let ?out = "subAssetExtractor threshold shapeHash specs"
  let ?new = "extractedSubAssets threshold shapeHash specs"
  have "name (subAssetFor threshold shapeHash parentName children) = shapeHash children"
    by (simp add: subAssetFor_def)
  then have "shapeHash children \<in> name ` set (map (\<lambda>(parentName, children).
        subAssetFor threshold shapeHash parentName children) (foundShapes threshold specs))"
    using assms by force
  then have "shapeHash children \<in> name ` set ?new"
    by (simp add: extractedSubAssets_def keys_addAllKeyed)
  then have one: "length (filter (\<lambda>sub. name sub = shapeHash children) ?new) = 1"
    unfolding extractedSubAssets_def
    by (rule one_per_key [OF distinct_keys_from_empty])
  have created: "length (filter (\<lambda>sub. name sub = shapeHash children)
                   (drop (length specs) ?out)) = 1"
    by (simp add: extractor_created one)
  have whole: "length (filter (\<lambda>sub. name sub = shapeHash children) ?out) = 1"
    if fresh: "shapeHash children \<notin> name ` set specs"
  proof -
    have "filter (\<lambda>sub. name sub = shapeHash children) (map (\<lambda>spec.
        spec\<lparr>props := rewriteProps threshold shapeHash (props spec)\<rparr>) specs) = []"
      using fresh by (induction specs) auto
    then show ?thesis
      using one by (simp add: subAssetExtractor_def)
  qed
  have subs: "\<exists>(pn, c) \<in> set (foundShapes threshold specs).
               name sub = shapeHash c \<and> parent sub = Some pn \<and> map fst (props sub) = map fst c
               \<and> (\<forall>j path. j < length c \<longrightarrow>
                      outermostAt threshold path (snd (c ! j)) = Some children \<longrightarrow>
                      propAt path (snd (props sub ! j)) = Some (PRef (shapeHash children)))"
    if "sub \<in> set (drop (length specs) ?out)" for sub
  proof -
    have "sub \<in> set ?new"
      using that by (simp add: extractor_created)
    then obtain pn c where found: "(pn, c) \<in> set (foundShapes threshold specs)"
      and sub: "sub = subAssetFor threshold shapeHash pn c"
      using extracted_is_found by blast
    have "name sub = shapeHash c" "parent sub = Some pn" "map fst (props sub) = map fst c"
      by (simp_all add: sub subAssetFor_def rewriteProps_names)
    moreover have "propAt path (snd (props sub ! j)) = Some (PRef (shapeHash children))"
      if "j < length c" "outermostAt threshold path (snd (c ! j)) = Some children" for j path
      using that by (simp add: sub subAssetFor_def rewriteProps_nth outermost_replaced)
    ultimately show ?thesis
      using found by blast
  qed
  have parents: "?out ! i = (specs ! i)\<lparr>props := props (?out ! i)\<rparr>
             \<and> map fst (props (?out ! i)) = map fst (props (specs ! i))
             \<and> (\<forall>j path. j < length (props (specs ! i)) \<longrightarrow>
                    outermostAt threshold path (snd (props (specs ! i) ! j)) = Some children \<longrightarrow>
                    propAt path (snd (props (?out ! i) ! j)) = Some (PRef (shapeHash children)))"
    if "i < length specs" for i
    by (simp add: extractor_parent [OF that] rewriteProps_names rewriteProps_nth outermost_replaced)
  have sub: "candidatesIn threshold (props sub) = []" if "sub \<in> set ?new" for sub
    using extracted_is_found [OF that] by (auto simp: subAssetFor_def candidatesIn_rewriteProps)
  have clean: "\<forall>spec \<in> set ?out. candidatesIn threshold (props spec) = []"
    using sub by (auto simp: subAssetExtractor_def candidatesIn_rewriteProps)
  show ?thesis
    using created whole subs parents clean by blast
qed

theorem identical_shapes_one_sub_asset_witness:
  "foundShapes 1 parentSpecs = [(''Queue'', redrivePolicy), (''Topic'', redrivePolicy)]
   \<and> outermostAt 1 [] (snd (props (parentSpecs ! 0) ! 1)) = Some redrivePolicy
   \<and> outermostAt 1 [Element] (snd (props (parentSpecs ! 1) ! 0)) = Some redrivePolicy
   \<and> subAssetExtractor 1 demoShapeHash parentSpecs =
       [plainSpec ''Queue''
          [(''QueueName'', PString),
           (''RedrivePolicy'', PRef ''SubdeadLetterTargetArnmaxReceiveCount'')] [],
        plainSpec ''Topic''
          [(''Policies'', PArray (PRef ''SubdeadLetterTargetArnmaxReceiveCount''))] [],
        (plainSpec ''SubdeadLetterTargetArnmaxReceiveCount'' redrivePolicy [])
          \<lparr>parent := Some ''Queue''\<rparr>]
   \<and> length (filter (\<lambda>sub. name sub = demoShapeHash redrivePolicy)
               (subAssetExtractor 1 demoShapeHash parentSpecs)) = 1
   \<and> propAt [] (snd (props (subAssetExtractor 1 demoShapeHash parentSpecs ! 0) ! 1))
       = Some (PRef (demoShapeHash redrivePolicy))
   \<and> propAt [Element] (snd (props (subAssetExtractor 1 demoShapeHash parentSpecs ! 1) ! 0))
       = Some (PRef (demoShapeHash redrivePolicy))"
proof -
  have found: "(''Topic'', redrivePolicy) \<in> set (foundShapes 1 parentSpecs)"
    unfolding parent_found by simp
  note th = identical_shapes_one_sub_asset [OF found, of demoShapeHash]
  have fresh: "demoShapeHash redrivePolicy \<notin> name ` set parentSpecs"
    by (simp add: demoShapeHash_def redrivePolicy_def parentSpecs_def plainSpec_def)
  have o1: "outermostAt 1 [] (snd (props (parentSpecs ! 0) ! 1)) = Some redrivePolicy"
    by (simp add: parentSpecs_def plainSpec_def redrivePolicy_def qualifiesForPromotion_def)
  have o2: "outermostAt 1 [Element] (snd (props (parentSpecs ! 1) ! 0)) = Some redrivePolicy"
    by (simp add: parentSpecs_def plainSpec_def redrivePolicy_def qualifiesForPromotion_def)
  have len: "0 < length parentSpecs" "1 < length parentSpecs"
    "1 < length (props (parentSpecs ! 0))" "0 < length (props (parentSpecs ! 1))"
    by (simp_all add: parentSpecs_def plainSpec_def)
  have count: "length (filter (\<lambda>sub. name sub = demoShapeHash redrivePolicy)
               (subAssetExtractor 1 demoShapeHash parentSpecs)) = 1"
    using th fresh by blast
  have p1: "propAt [] (snd (props (subAssetExtractor 1 demoShapeHash parentSpecs ! 0) ! 1))
       = Some (PRef (demoShapeHash redrivePolicy))"
    using th len(1,3) o1 by blast
  have p2: "propAt [Element] (snd (props (subAssetExtractor 1 demoShapeHash parentSpecs ! 1) ! 0))
       = Some (PRef (demoShapeHash redrivePolicy))"
    using th len(2,4) o2 by blast
  show ?thesis
    using parent_found parent_extracted o1 o2 count p1 p2 by blast
qed

text \<open>
  C8. The resolver wires an input socket for a need only when exactly one output socket
  qualifies, and a qualifying socket is an output socket of another spec of the collection
  with exactly the normalized name and the type of the need; for a need with more than
  one qualifying socket no input socket is created and a warning is attached to the spec.
\<close>

theorem ambiguous_match_not_wired:
  "inputSocketResolver normalizeName needs specs =
     map (\<lambda>spec. spec
            \<lparr>sockets := sockets spec @
               map inputSocketFor
                 (filter (\<lambda>need. length (qualifying normalizeName (outputIndex specs) spec need) = 1)
                    (needs spec)),
             warnings := warnings spec @
               map ambiguityWarning
                 (filter (\<lambda>need. 1 < length (qualifying normalizeName (outputIndex specs) spec need))
                    (needs spec))\<rparr>) specs
   \<and> set (qualifying normalizeName (outputIndex specs) spec need) =
       {(owner, out). (\<exists>other \<in> set specs. name other = owner \<and> out \<in> set (sockets other))
                      \<and> direction out = Output \<and> owner \<noteq> name spec
                      \<and> normalizeName (socket_name out) = normalizeName (fst need)
                      \<and> socket_type out = snd need}"
proof -
  have a: "resolveSpec normalizeName needs (outputIndex specs) s =
      s\<lparr>sockets := sockets s @
           map inputSocketFor
             (filter (\<lambda>need. length (qualifying normalizeName (outputIndex specs) s need) = 1)
                (needs s)),
        warnings := warnings s @
           map ambiguityWarning
             (filter (\<lambda>need. 1 < length (qualifying normalizeName (outputIndex specs) s need))
                (needs s))\<rparr>"
    for s
    by (simp add: resolveSpec_def Let_def wiredSockets_resolve recordedWarnings_resolve)
  have b: "set (qualifying normalizeName (outputIndex specs) spec need) =
       {(owner, out). (\<exists>other \<in> set specs. name other = owner \<and> out \<in> set (sockets other))
                      \<and> direction out = Output \<and> owner \<noteq> name spec
                      \<and> normalizeName (socket_name out) = normalizeName (fst need)
                      \<and> socket_type out = snd need}"
    by (auto simp: qualifying_def set_outputIndex)
  show ?thesis
    using b by (simp add: inputSocketResolver_def Let_def a)
qed

theorem ambiguous_match_not_wired_witness:
  "inputSocketResolver demoNormalize demoNeeds wiringSpecs =
     [plainSpec ''Queue1'' [] [outputSocket ''QueueArn''],
      plainSpec ''Queue2'' [] [outputSocket ''Queue Arn''],
      plainSpec ''Role'' [] [outputSocket ''RoleArn''],
      (plainSpec ''Consumer'' []
         [\<lparr>socket_name = ''RoleArn'', socket_type = PString, direction = Input\<rparr>])
        \<lparr>warnings := [''ambiguous output socket match for QueueArn'']\<rparr>]"
  using ambiguous_match_not_wired [of demoNormalize demoNeeds wiringSpecs]
  unfolding wiring_index
  by (simp add: wiringSpecs_def demoNeeds_def plainSpec_def qualifying_def outputSocket_def
        demoNormalize_def inputSocketFor_def ambiguityWarning_def)

end
